theory Spec2Isabelle
  imports Complex_Main
begin

section \<open>Values of NumPy arithmetic\<close>

text \<open>
  The notebook computes with NumPy double-precision numbers. They are modelled as the
  real numbers together with the three special values of the format: finite results are
  exact (rounding, overflow and the sign of zero are left out), and the special values
  follow the arithmetic of the format: a special value never turns finite again under
  \<open>+\<close> and \<open>*\<close>, \<open>0 * inf\<close> and \<open>inf - inf\<close> are not-a-number.
  Comparison of two values is structural, so \<open>NaN = NaN\<close> holds here.
\<close>

datatype npfloat = Fin real | PInf | NInf | NaN

instantiation npfloat :: "{comm_monoid_add, times, uminus}"
begin

definition zero_npfloat :: npfloat where
  "zero_npfloat = Fin 0"

fun plus_npfloat :: "npfloat \<Rightarrow> npfloat \<Rightarrow> npfloat" where
  "plus_npfloat (Fin a) (Fin b) = Fin (a + b)"
| "plus_npfloat NaN _ = NaN"
| "plus_npfloat _ NaN = NaN"
| "plus_npfloat PInf NInf = NaN"
| "plus_npfloat NInf PInf = NaN"
| "plus_npfloat PInf _ = PInf"
| "plus_npfloat _ PInf = PInf"
| "plus_npfloat NInf _ = NInf"
| "plus_npfloat _ NInf = NInf"

fun times_npfloat :: "npfloat \<Rightarrow> npfloat \<Rightarrow> npfloat" where
  "times_npfloat (Fin a) (Fin b) = Fin (a * b)"
| "times_npfloat NaN _ = NaN"
| "times_npfloat _ NaN = NaN"
| "times_npfloat (Fin a) PInf = (if a = 0 then NaN else if 0 < a then PInf else NInf)"
| "times_npfloat (Fin a) NInf = (if a = 0 then NaN else if 0 < a then NInf else PInf)"
| "times_npfloat PInf (Fin a) = (if a = 0 then NaN else if 0 < a then PInf else NInf)"
| "times_npfloat NInf (Fin a) = (if a = 0 then NaN else if 0 < a then NInf else PInf)"
| "times_npfloat PInf PInf = PInf"
| "times_npfloat PInf NInf = NInf"
| "times_npfloat NInf PInf = NInf"
| "times_npfloat NInf NInf = PInf"

fun uminus_npfloat :: "npfloat \<Rightarrow> npfloat" where
  "uminus_npfloat (Fin a) = Fin (- a)"
| "uminus_npfloat PInf = NInf"
| "uminus_npfloat NInf = PInf"
| "uminus_npfloat NaN = NaN"

instance
proof (standard, goal_cases)
  case (1 u v w)
  show ?case
    by (cases u; cases v; cases w; simp)
next
  case (2 u v)
  show ?case
    by (cases u; cases v; simp)
next
  case (3 u)
  show ?case
    unfolding zero_npfloat_def by (cases u; simp)
qed

end

text \<open>
  \<open>np.power(b, p)\<close> for a finite base and a real exponent that is not an integer (the
  notebook's exponent is \<open>-3/2\<close>): a negative base gives not-a-number, base zero with a
  negative exponent gives infinity (NumPy warns and goes on), and \<open>0 ** 0 = 1\<close>.
\<close>

definition np_power :: "real \<Rightarrow> real \<Rightarrow> npfloat" where
  "np_power b p =
     (if b < 0 then NaN
      else if b = 0 then (if p < 0 then PInf else if p = 0 then Fin 1 else Fin 0)
      else Fin (b powr p))"

text \<open>\<open>np.sum\<close> of a two-dimensional array adds up all its entries.\<close>

definition np_sum :: "npfloat list list \<Rightarrow> npfloat" where
  "np_sum A = sum_list (concat A)"

section \<open>Python errors and the global electric constant\<close>

datatype py_error = ZeroDivisionError | ValueError

text \<open>The notebook's only global that the functions read: \<open>eps0\<close>.\<close>

record globals =
  eps0 :: real

text \<open>Python's true division \<open>a / b\<close> of two Python numbers raises when \<open>b\<close> is zero.\<close>

definition py_div :: "real \<Rightarrow> real \<Rightarrow> py_error + real" where
  "py_div a b = (if b = 0 then Inl ZeroDivisionError else Inr (a / b))"

text \<open>
  \<open>np.linspace(start, stop, num)\<close>: a negative \<open>num\<close> raises \<open>ValueError\<close>; otherwise
  \<open>num\<close> samples \<open>start + i * step\<close> with \<open>step = (stop - start) / (num - 1)\<close>, the last
  one overwritten with \<open>stop\<close> when \<open>num > 1\<close>; for \<open>num = 1\<close> the single sample is
  \<open>start\<close>, for \<open>num = 0\<close> there is none. (When the step is zero NumPy computes
  \<open>start + i / (num - 1) * (stop - start)\<close> instead, which is the same number.)
\<close>

definition linspace :: "real \<Rightarrow> real \<Rightarrow> int \<Rightarrow> py_error + real list" where
  "linspace start stop num =
     (if num < 0 then Inl ValueError
      else let n = nat num in
        if n = 1 then Inr [start]
        else Inr ((map (\<lambda>i. start + real i * ((stop - start) / real (n - 1))) [0..<n])
                    [n - 1 := stop]))"

text \<open>
  \<open>np.meshgrid(xs, ys)\<close> returns two arrays of \<open>len(ys)\<close> rows and \<open>len(xs)\<close> columns:
  every row of the first is \<open>xs\<close>, every column of the second is \<open>ys\<close>.
\<close>

definition meshgrid :: "real list \<Rightarrow> real list \<Rightarrow> real list list \<times> real list list" where
  "meshgrid xs ys = (replicate (length ys) xs, map (\<lambda>y. replicate (length xs) y) ys)"

section \<open>The field of one plate\<close>

text \<open>What the closure \<open>Efield\<close> captures from \<open>constructPlateEfield\<close>.\<close>

record plate =
  xCell :: "real list list"
  yCell :: "real list list"
  preFactor :: real

definition cellArea :: "real \<Rightarrow> real \<Rightarrow> real" where
  "cellArea dx dy = dx * dy"

definition cellCharge :: "real \<Rightarrow> real \<Rightarrow> real \<Rightarrow> real" where
  "cellCharge chargeDensity dx dy = chargeDensity * cellArea dx dy"

text \<open>
  \<open>constructPlateEfield(chargeDensity, Lx, Ly, Nx, Ny)\<close>, called with Python numbers,
  in the global state \<open>g\<close>. The statements run in the source's order, and each one that
  can raise is a branch: the two divisions by \<open>Nx\<close> and \<open>Ny\<close>, the two calls of
  \<open>np.linspace\<close>, the division by \<open>4*np.pi*eps0\<close>. There is no other check.
\<close>

definition constructPlateEfield ::
  "globals \<Rightarrow> real \<Rightarrow> real \<Rightarrow> real \<Rightarrow> int \<Rightarrow> int \<Rightarrow> py_error + plate" where
  "constructPlateEfield g chargeDensity Lx Ly Nx Ny =
     (case py_div Lx (of_int Nx) of Inl e \<Rightarrow> Inl e | Inr dx \<Rightarrow>
      case py_div Ly (of_int Ny) of Inl e \<Rightarrow> Inl e | Inr dy \<Rightarrow>
      case linspace (- Lx / 2 + dx / 2) (Lx / 2 - dx / 2) Nx of Inl e \<Rightarrow> Inl e | Inr xs \<Rightarrow>
      case linspace (- Ly / 2 + dy / 2) (Ly / 2 - dy / 2) Ny of Inl e \<Rightarrow> Inl e | Inr ys \<Rightarrow>
      case py_div (cellCharge chargeDensity dx dy) (4 * pi * eps0 g) of Inl e \<Rightarrow> Inl e
      | Inr pf \<Rightarrow> Inr \<lparr>xCell = fst (meshgrid xs ys), yCell = snd (meshgrid xs ys),
                        preFactor = pf\<rparr>)"

text \<open>
  The closure \<open>Efield(x, y, z)\<close> at a scalar query point: element-wise operations on the
  two cell arrays, then three sums. It reads \<open>xCell\<close>, \<open>yCell\<close> and \<open>preFactor\<close> only.
\<close>

definition Rinv3 :: "plate \<Rightarrow> real \<Rightarrow> real \<Rightarrow> real \<Rightarrow> npfloat list list" where
  "Rinv3 P x y z =
     map2 (map2 (\<lambda>xc yc. np_power ((x - xc)\<^sup>2 + (y - yc)\<^sup>2 + z\<^sup>2) (- 3 / 2)))
       (xCell P) (yCell P)"

definition dEx :: "plate \<Rightarrow> real \<Rightarrow> real \<Rightarrow> real \<Rightarrow> npfloat list list" where
  "dEx P x y z = map2 (map2 (\<lambda>xc r. Fin (preFactor P * (x - xc)) * r)) (xCell P) (Rinv3 P x y z)"

definition dEy :: "plate \<Rightarrow> real \<Rightarrow> real \<Rightarrow> real \<Rightarrow> npfloat list list" where
  "dEy P x y z = map2 (map2 (\<lambda>yc r. Fin (preFactor P * (y - yc)) * r)) (yCell P) (Rinv3 P x y z)"

definition dEz :: "plate \<Rightarrow> real \<Rightarrow> real \<Rightarrow> real \<Rightarrow> npfloat list list" where
  "dEz P x y z = map (map (\<lambda>r. Fin (preFactor P * z) * r)) (Rinv3 P x y z)"

definition Efield :: "plate \<Rightarrow> real \<Rightarrow> real \<Rightarrow> real \<Rightarrow> npfloat \<times> npfloat \<times> npfloat" where
  "Efield P x y z = (np_sum (dEx P x y z), np_sum (dEy P x y z), np_sum (dEz P x y z))"

text \<open>
  The returned evaluator is \<open>np.vectorize(Efield)\<close>, built without \<open>otypes\<close>. Called with
  scalars it is \<open>Efield\<close>. Called with scalar \<open>x\<close>, \<open>y\<close> and a one-dimensional array of
  \<open>z\<close> values it calls \<open>Efield\<close> once per entry and returns one array per component;
  on an empty array it raises \<open>ValueError\<close> (the output type is found by evaluating the
  first element, and there is none). Overflow is left out here as everywhere in this
  model: NumPy hands the entries to \<open>Efield\<close> as Python floats, whose \<open>z**2\<close> raises
  \<open>OverflowError\<close> once \<open>z*z\<close> exceeds the largest double (about \<open>|z| > 1.3e154\<close>).
\<close>

definition Efield_vectorized ::
  "plate \<Rightarrow> real \<Rightarrow> real \<Rightarrow> real list
     \<Rightarrow> py_error + (npfloat list \<times> npfloat list \<times> npfloat list)" where
  "Efield_vectorized P x y zs =
     (if zs = [] then Inl ValueError
      else Inr (map (\<lambda>z. fst (Efield P x y z)) zs,
                map (\<lambda>z. fst (snd (Efield P x y z))) zs,
                map (\<lambda>z. snd (snd (Efield P x y z))) zs))"

text \<open>
  A call of the evaluator in a global state: the body of \<open>Efield\<close> names no global, so
  the state is not consulted.
\<close>

definition call_Efield ::
  "globals \<Rightarrow> plate \<Rightarrow> real \<Rightarrow> real \<Rightarrow> real \<Rightarrow> npfloat \<times> npfloat \<times> npfloat" where
  "call_Efield g P x y z = Efield P x y z"

section \<open>Two parallel plates\<close>

text \<open>What the closure of \<open>constructEfieldParallel\<close> captures.\<close>

record parallel =
  Efield1 :: plate
  Efield2 :: plate
  distance :: real

definition constructEfieldParallel ::
  "globals \<Rightarrow> real \<Rightarrow> real \<Rightarrow> real \<Rightarrow> real \<Rightarrow> int \<Rightarrow> int \<Rightarrow> py_error + parallel" where
  "constructEfieldParallel g chargeDensity d Lx Ly Nx Ny =
     (case constructPlateEfield g chargeDensity Lx Ly Nx Ny of Inl e \<Rightarrow> Inl e | Inr E1 \<Rightarrow>
      case constructPlateEfield g (- chargeDensity) Lx Ly Nx Ny of Inl e \<Rightarrow> Inl e
      | Inr E2 \<Rightarrow> Inr \<lparr>Efield1 = E1, Efield2 = E2, distance = d\<rparr>)"

definition Efield_parallel ::
  "parallel \<Rightarrow> real \<Rightarrow> real \<Rightarrow> real \<Rightarrow> npfloat \<times> npfloat \<times> npfloat" where
  "Efield_parallel C x y z =
     (case Efield (Efield1 C) x y (z + distance C / 2) of (ex1, ey1, ez1) \<Rightarrow>
      case Efield (Efield2 C) x y (z - distance C / 2) of (ex2, ey2, ez2) \<Rightarrow>
        (ex1 + ex2, ey1 + ey2, ez1 + ez2))"

section \<open>The specification's grid\<close>

text \<open>
  The specification's cell centres, written from its words: cell \<open>i\<close> of \<open>N\<close> along a side
  of length \<open>L\<close> has its centre at \<open>-L/2 + d/2 + i*d\<close> with pitch \<open>d = L/N\<close>; the first is
  \<open>-L/2 + d/2\<close> and the last \<open>L/2 - d/2\<close>.
\<close>

definition cell_center :: "real \<Rightarrow> nat \<Rightarrow> nat \<Rightarrow> real" where
  "cell_center L N i = - L / 2 + (L / real N) / 2 + real i * (L / real N)"

text \<open>The specification's prefactor \<open>k = sigma*dx*dy/(4*pi*eps0)\<close>.\<close>

definition spec_k :: "real \<Rightarrow> real \<Rightarrow> real \<Rightarrow> nat \<Rightarrow> nat \<Rightarrow> real \<Rightarrow> real" where
  "spec_k sigma Lx Ly Nx Ny e = sigma * (Lx / real Nx) * (Ly / real Ny) / (4 * pi * e)"

text \<open>The specification's \<open>invR3 = ((x-xc)^2 + (y-yc)^2 + z^2)^(-3/2)\<close>.\<close>

definition invR3 :: "real \<Rightarrow> real \<Rightarrow> real \<Rightarrow> real \<Rightarrow> real \<Rightarrow> npfloat" where
  "invR3 x y z xc yc = np_power ((x - xc)\<^sup>2 + (y - yc)\<^sup>2 + z\<^sup>2) (- 3 / 2)"

text \<open>The component-by-component sum of two field vectors.\<close>

definition vec_add ::
  "npfloat \<times> npfloat \<times> npfloat \<Rightarrow> npfloat \<times> npfloat \<times> npfloat
     \<Rightarrow> npfloat \<times> npfloat \<times> npfloat" where
  "vec_add u v = (fst u + fst v, fst (snd u) + fst (snd v), snd (snd u) + snd (snd v))"

text \<open>
  The specification's analytic field of a point charge \<open>Q\<close> on the axis, z-component:
  \<open>Q/(4*pi*eps0) * z/|z|^3\<close> (the x- and y-components are zero there).
\<close>

definition point_charge_Ez :: "real \<Rightarrow> real \<Rightarrow> real \<Rightarrow> real" where
  "point_charge_Ez Q e z = Q / (4 * pi * e) * z / \<bar>z\<bar> ^ 3"

section \<open>Arithmetic of the special values\<close>

lemma npfloat_neg_add: "- (a + b) = - a + - (b::npfloat)"
  by (cases a; cases b) simp_all

lemma npfloat_neg_neg: "- (- a) = (a::npfloat)"
  by (cases a) simp_all

lemma npfloat_mult_neg_left: "Fin (- a) * r = - (Fin a * r)"
  by (cases r) simp_all

section \<open>The grid that the constructor builds\<close>

lemma linspace_centers:
  assumes "1 \<le> N"
  shows "linspace (- L / 2 + (L / of_int N) / 2) (L / 2 - (L / of_int N) / 2) N
           = Inr (map (cell_center L (nat N)) [0..<nat N])"
proof (cases "nat N = 1")
  case True
  then have "N = 1" using assms by simp
  then show ?thesis by (simp add: linspace_def cell_center_def)
next
  case False
  define n where "n = nat N"
  have n2: "2 \<le> n" using assms False by (simp add: n_def)
  have Nn: "(of_int N :: real) = real n" using assms by (simp add: n_def)
  have step: "((L / 2 - (L / real n) / 2) - (- L / 2 + (L / real n) / 2)) / real (n - 1) = L / real n"
    using n2 by (simp add: field_simps of_nat_diff)
  have last: "L / 2 - (L / real n) / 2 = cell_center L n (n - 1)"
    using n2 by (simp add: cell_center_def field_simps of_nat_diff)
  have "(map (\<lambda>i. (- L / 2 + (L / real n) / 2) + real i * (L / real n)) [0..<n])
          [n - 1 := L / 2 - (L / real n) / 2] = map (cell_center L n) [0..<n]"
    using n2 last by (intro nth_equalityI) (auto simp: nth_list_update cell_center_def)
  then show ?thesis
    using assms False n2 unfolding linspace_def Let_def Nn n_def[symmetric] step
    by simp
qed

lemma map2_replicate_right:
  "map2 f xs (replicate (length xs) y) = map (\<lambda>x. f x y) xs"
  by (induction xs) simp_all

lemma construct_cases:
  "constructPlateEfield g s Lx Ly Nx Ny =
     (if Nx = 0 \<or> Ny = 0 then Inl ZeroDivisionError
      else if Nx < 0 \<or> Ny < 0 then Inl ValueError
      else if eps0 g = 0 then Inl ZeroDivisionError
      else Inr \<lparr>xCell = replicate (nat Ny) (map (cell_center Lx (nat Nx)) [0..<nat Nx]),
                yCell = map (replicate (nat Nx)) (map (cell_center Ly (nat Ny)) [0..<nat Ny]),
                preFactor = spec_k s Lx Ly (nat Nx) (nat Ny) (eps0 g)\<rparr>)"
proof -
  consider "Nx = 0 \<or> Ny = 0" | "Nx \<noteq> 0" "Ny \<noteq> 0" "Nx < 0 \<or> Ny < 0" | "1 \<le> Nx" "1 \<le> Ny"
    by linarith
  then show ?thesis
  proof cases
    case 1
    then show ?thesis by (auto simp: constructPlateEfield_def py_div_def)
  next
    case 2
    then show ?thesis
      by (auto simp: constructPlateEfield_def py_div_def linspace_def Let_def split: sum.splits if_splits)
  next
    case 3
    have dx: "py_div Lx (of_int Nx) = Inr (Lx / of_int Nx)"
      and dy: "py_div Ly (of_int Ny) = Inr (Ly / of_int Ny)"
      using 3 by (simp_all add: py_div_def)
    have pf: "py_div (cellCharge s (Lx / of_int Nx) (Ly / of_int Ny)) (4 * pi * eps0 g) =
        (if eps0 g = 0 then Inl ZeroDivisionError
         else Inr (spec_k s Lx Ly (nat Nx) (nat Ny) (eps0 g)))"
      using 3 by (simp add: py_div_def cellCharge_def cellArea_def spec_k_def)
    have "constructPlateEfield g s Lx Ly Nx Ny =
        (if eps0 g = 0 then Inl ZeroDivisionError
         else Inr \<lparr>xCell = fst (meshgrid (map (cell_center Lx (nat Nx)) [0..<nat Nx])
                                    (map (cell_center Ly (nat Ny)) [0..<nat Ny])),
                   yCell = snd (meshgrid (map (cell_center Lx (nat Nx)) [0..<nat Nx])
                                    (map (cell_center Ly (nat Ny)) [0..<nat Ny])),
                   preFactor = spec_k s Lx Ly (nat Nx) (nat Ny) (eps0 g)\<rparr>)"
      unfolding constructPlateEfield_def dx dy sum.case
        linspace_centers[OF 3(1)] linspace_centers[OF 3(2)] pf
      by simp
    then show ?thesis
      using 3 by (simp add: meshgrid_def)
  qed
qed

lemma map2_rows_left:
  "map2 F (replicate (length ys) a) (map G ys) = map (\<lambda>y. F a (G y)) ys"
  by (induction ys) simp_all

lemma map2_rows_both:
  "map2 F (map H ys) (map G ys) = map (\<lambda>y. F (H y) (G y)) ys"
  by (induction ys) simp_all

lemma map2_cols_same:
  "map2 f xs (map h xs) = map (\<lambda>x. f x (h x)) xs"
  by (induction xs) simp_all

lemma np_sum_rows:
  "np_sum (map (\<lambda>y. map (\<lambda>x. f x y) xs) ys) = (\<Sum>y\<leftarrow>ys. \<Sum>x\<leftarrow>xs. f x y)"
  by (induction ys) (simp_all add: np_sum_def)

lemma Rinv3_grid:
  assumes "xCell P = replicate (length ys) xs" "yCell P = map (replicate (length xs)) ys"
  shows "Rinv3 P x y z = map (\<lambda>yc. map (\<lambda>xc. invR3 x y z xc yc) xs) ys"
  unfolding Rinv3_def assms invR3_def
  using map2_rows_left[of "map2 f" ys xs "replicate (length xs)" for f]
  by (simp add: map2_replicate_right)

section \<open>The evaluator as a sum over the grid\<close>

lemma map2_replicate_left:
  "map2 f (replicate (length xs) c) (map h xs) = map (\<lambda>x. f c (h x)) xs"
  by (induction xs) simp_all

lemma Efield_grid:
  assumes X: "xCell P = replicate (length ys) xs"
    and Y: "yCell P = map (replicate (length xs)) ys"
  shows "Efield P x y z =
    ((\<Sum>yc\<leftarrow>ys. \<Sum>xc\<leftarrow>xs. Fin (preFactor P * (x - xc)) * invR3 x y z xc yc),
     (\<Sum>yc\<leftarrow>ys. \<Sum>xc\<leftarrow>xs. Fin (preFactor P * (y - yc)) * invR3 x y z xc yc),
     (\<Sum>yc\<leftarrow>ys. \<Sum>xc\<leftarrow>xs. Fin (preFactor P * z) * invR3 x y z xc yc))"
proof -
  note R = Rinv3_grid[OF X Y]
  have ex: "dEx P x y z =
      map (\<lambda>yc. map (\<lambda>xc. Fin (preFactor P * (x - xc)) * invR3 x y z xc yc) xs) ys"
    unfolding dEx_def R X by (simp only: map2_rows_left map2_cols_same)
  have ey: "dEy P x y z =
      map (\<lambda>yc. map (\<lambda>xc. Fin (preFactor P * (y - yc)) * invR3 x y z xc yc) xs) ys"
    unfolding dEy_def R Y by (simp only: map2_rows_both map2_replicate_left)
  have ez: "dEz P x y z =
      map (\<lambda>yc. map (\<lambda>xc. Fin (preFactor P * z) * invR3 x y z xc yc) xs) ys"
    unfolding dEz_def R by (simp add: comp_def)
  show ?thesis
    unfolding Efield_def ex ey ez np_sum_rows ..
qed

lemma sum_list_centers2:
  "(\<Sum>yc\<leftarrow>map cy [0..<m]. \<Sum>xc\<leftarrow>map cx [0..<n]. (t xc yc :: npfloat))
     = (\<Sum>i<n. \<Sum>j<m. t (cx i) (cy j))"
proof -
  have "(\<Sum>yc\<leftarrow>map cy [0..<m]. \<Sum>xc\<leftarrow>map cx [0..<n]. t xc yc)
      = (\<Sum>j<m. \<Sum>i<n. t (cx i) (cy j))"
    by (simp add: interv_sum_list_conv_sum_set_nat atLeast0LessThan comp_def)
  also have "\<dots> = (\<Sum>i<n. \<Sum>j<m. t (cx i) (cy j))"
    by (rule sum.swap)
  finally show ?thesis .
qed

lemma Efield_constructed:
  assumes "constructPlateEfield g s Lx Ly Nx Ny = Inr P"
  shows "Efield P x y z =
    ((\<Sum>i<nat Nx. \<Sum>j<nat Ny.
        Fin (spec_k s Lx Ly (nat Nx) (nat Ny) (eps0 g) * (x - cell_center Lx (nat Nx) i))
          * invR3 x y z (cell_center Lx (nat Nx) i) (cell_center Ly (nat Ny) j)),
     (\<Sum>i<nat Nx. \<Sum>j<nat Ny.
        Fin (spec_k s Lx Ly (nat Nx) (nat Ny) (eps0 g) * (y - cell_center Ly (nat Ny) j))
          * invR3 x y z (cell_center Lx (nat Nx) i) (cell_center Ly (nat Ny) j)),
     (\<Sum>i<nat Nx. \<Sum>j<nat Ny.
        Fin (spec_k s Lx Ly (nat Nx) (nat Ny) (eps0 g) * z)
          * invR3 x y z (cell_center Lx (nat Nx) i) (cell_center Ly (nat Ny) j)))"
proof -
  from assms have P: "P = \<lparr>xCell = replicate (nat Ny) (map (cell_center Lx (nat Nx)) [0..<nat Nx]),
                yCell = map (replicate (nat Nx)) (map (cell_center Ly (nat Ny)) [0..<nat Ny]),
                preFactor = spec_k s Lx Ly (nat Nx) (nat Ny) (eps0 g)\<rparr>"
    by (simp add: construct_cases split: if_splits)
  have X: "xCell P = replicate (length (map (cell_center Ly (nat Ny)) [0..<nat Ny]))
             (map (cell_center Lx (nat Nx)) [0..<nat Nx])"
    and Y: "yCell P = map (replicate (length (map (cell_center Lx (nat Nx)) [0..<nat Nx])))
             (map (cell_center Ly (nat Ny)) [0..<nat Ny])"
    and K: "preFactor P = spec_k s Lx Ly (nat Nx) (nat Ny) (eps0 g)"
    by (simp_all add: P)
  show ?thesis
    unfolding Efield_grid[OF X Y] K sum_list_centers2 ..
qed

section \<open>Claims about one plate\<close>

lemma cell_center_span:
  assumes "0 < N"
  shows "cell_center L N 0 = - L / 2 + (L / real N) / 2"
    and "cell_center L N (N - 1) = L / 2 - (L / real N) / 2"
    and "cell_center L N (Suc i) - cell_center L N i = L / real N"
  using assms by (simp_all add: cell_center_def field_simps of_nat_diff)

lemma construct_unit_plate:
  "constructPlateEfield \<lparr>eps0 = 1\<rparr> 1 2 2 1 1
     = Inr \<lparr>xCell = [[0]], yCell = [[0]], preFactor = 1 / pi\<rparr>"
  by (simp add: construct_cases cell_center_def spec_k_def)

text \<open>
  C1. For every plate that \<open>constructPlateEfield\<close> builds and every scalar query point
  \<open>(x, y, z)\<close>, the evaluator returns the three sums, over the full \<open>Nx\<close> by \<open>Ny\<close> grid of
  cell centres, of the contributions \<open>k*(x-xc)*invR3\<close>, \<open>k*(y-yc)*invR3\<close> and
  \<open>k*z*invR3\<close>, with the same prefactor \<open>k = sigma*dx*dy/(4*pi*eps0)\<close> for every cell.
  The centres are those of \<open>cell_center\<close>: evenly spaced by \<open>dx\<close>, from \<open>-Lx/2 + dx/2\<close>
  to \<open>Lx/2 - dx/2\<close> (lemma \<open>cell_center_span\<close>).
\<close>

theorem plate_field_is_grid_sum:
  assumes "constructPlateEfield g sigma Lx Ly Nx Ny = Inr P"
  shows "Efield P x y z =
    ((\<Sum>i<nat Nx. \<Sum>j<nat Ny.
        Fin (spec_k sigma Lx Ly (nat Nx) (nat Ny) (eps0 g) * (x - cell_center Lx (nat Nx) i))
          * invR3 x y z (cell_center Lx (nat Nx) i) (cell_center Ly (nat Ny) j)),
     (\<Sum>i<nat Nx. \<Sum>j<nat Ny.
        Fin (spec_k sigma Lx Ly (nat Nx) (nat Ny) (eps0 g) * (y - cell_center Ly (nat Ny) j))
          * invR3 x y z (cell_center Lx (nat Nx) i) (cell_center Ly (nat Ny) j)),
     (\<Sum>i<nat Nx. \<Sum>j<nat Ny.
        Fin (spec_k sigma Lx Ly (nat Nx) (nat Ny) (eps0 g) * z)
          * invR3 x y z (cell_center Lx (nat Nx) i) (cell_center Ly (nat Ny) j)))"
  using assms by (rule Efield_constructed)

theorem plate_field_is_grid_sum_witness:
  "constructPlateEfield \<lparr>eps0 = 1\<rparr> 1 2 2 1 1
     = Inr \<lparr>xCell = [[0]], yCell = [[0]], preFactor = 1 / pi\<rparr>
   \<and> Efield \<lparr>xCell = [[0]], yCell = [[0]], preFactor = 1 / pi\<rparr> 0 0 1
     = (Fin 0, Fin 0, Fin (1 / pi))"
  using plate_field_is_grid_sum [OF construct_unit_plate, of 0 0 1]
  by (simp add: construct_unit_plate cell_center_def spec_k_def invR3_def np_power_def)

text \<open>
  C2, as the code has it. The constructor validates nothing itself: it fails exactly
  when a cell count is below one or \<open>eps0\<close> is zero (\<open>ZeroDivisionError\<close> from a division,
  \<open>ValueError\<close> from \<open>np.linspace\<close> on a negative count, lemma \<open>construct_cases\<close>), and
  then no evaluator is returned. Side lengths that are zero or negative and a negative
  \<open>eps0\<close> are accepted. When all the stated preconditions hold, construction succeeds.
\<close>

theorem construction_fails_iff:
  "(isl (constructPlateEfield g sigma Lx Ly Nx Ny) \<longleftrightarrow> Nx < 1 \<or> Ny < 1 \<or> eps0 g = 0)
   \<and> (0 < Lx \<and> 0 < Ly \<and> 1 \<le> Nx \<and> 1 \<le> Ny \<and> 0 < eps0 g
        \<longrightarrow> \<not> isl (constructPlateEfield g sigma Lx Ly Nx Ny))"
  by (auto simp: construct_cases)

theorem construction_fails_iff_witness:
  "(0 < (3::real) \<and> 0 < (3::real) \<and> 1 \<le> (100::int) \<and> 1 \<le> (100::int) \<and> 0 < eps0 \<lparr>eps0 = 42\<rparr>)
   \<and> \<not> isl (constructPlateEfield \<lparr>eps0 = 42\<rparr> 1 3 3 100 100)"
  using construction_fails_iff [of "\<lparr>eps0 = 42\<rparr>" 1 3 3 100 100] by simp

text \<open>
  C2 as stated fails: with \<open>lengthX = -1\<close> (and \<open>lengthY = 1\<close>, one cell each way,
  \<open>eps0 = 1\<close>) the constructor raises nothing and returns an evaluator.
\<close>

theorem construction_accepts_negative_length:
  "constructPlateEfield \<lparr>eps0 = 1\<rparr> 1 (- 1) 1 1 1
     = Inr \<lparr>xCell = [[0]], yCell = [[0]], preFactor = - 1 / (4 * pi)\<rparr>"
  by (simp add: construct_cases cell_center_def spec_k_def)

lemma constructed_plate:
  assumes "constructPlateEfield g s Lx Ly Nx Ny = Inr P"
  shows "1 \<le> Nx" "1 \<le> Ny" "eps0 g \<noteq> 0"
    "xCell P = replicate (nat Ny) (map (cell_center Lx (nat Nx)) [0..<nat Nx])"
    "yCell P = map (replicate (nat Nx)) (map (cell_center Ly (nat Ny)) [0..<nat Ny])"
    "preFactor P = spec_k s Lx Ly (nat Nx) (nat Ny) (eps0 g)"
  using assms by (auto simp: construct_cases split: if_splits)

lemma length_concat_replicate: "length (concat (replicate m xs)) = m * length xs"
  by (induction m) simp_all

text \<open>
  C4. For all cell counts \<open>Nx, Ny \<ge> 1\<close> the per-cell charge computed at construction is
  \<open>chargeDensity*(Lx/Nx)*(Ly/Ny)\<close>, the same for every cell, and the charges of the
  \<open>Nx*Ny\<close> cells add up to \<open>chargeDensity*Lx*Ly\<close>. For every plate that is built, the
  prefactor is this charge over \<open>4*pi*eps0\<close>, both cell arrays hold \<open>Nx*Ny\<close> cells, and the
  sum of the charge over the cells of the array is the total charge.
\<close>

theorem cell_charges_sum_to_total:
  assumes "1 \<le> Nx" "1 \<le> Ny"
  shows "cellCharge sigma (Lx / of_int Nx) (Ly / of_int Ny)
           = sigma * (Lx / of_int Nx) * (Ly / of_int Ny)
    \<and> real (nat Nx * nat Ny) * cellCharge sigma (Lx / of_int Nx) (Ly / of_int Ny)
           = sigma * Lx * Ly
    \<and> (\<forall>P. constructPlateEfield g sigma Lx Ly Nx Ny = Inr P \<longrightarrow>
           preFactor P = cellCharge sigma (Lx / of_int Nx) (Ly / of_int Ny) / (4 * pi * eps0 g)
         \<and> length (concat (xCell P)) = nat Nx * nat Ny
         \<and> length (concat (yCell P)) = nat Nx * nat Ny
         \<and> (\<Sum>c\<leftarrow>concat (xCell P). cellCharge sigma (Lx / of_int Nx) (Ly / of_int Ny))
             = sigma * Lx * Ly)"
proof -
  let ?q = "cellCharge sigma (Lx / of_int Nx) (Ly / of_int Ny)"
  have q: "?q = sigma * (Lx / of_int Nx) * (Ly / of_int Ny)"
    by (simp add: cellCharge_def cellArea_def)
  have tot: "real (nat Nx * nat Ny) * ?q = sigma * Lx * Ly"
    using assms by (simp add: q)
  have "preFactor P = ?q / (4 * pi * eps0 g)
         \<and> length (concat (xCell P)) = nat Nx * nat Ny
         \<and> length (concat (yCell P)) = nat Nx * nat Ny
         \<and> (\<Sum>c\<leftarrow>concat (xCell P). ?q) = sigma * Lx * Ly"
    if built: "constructPlateEfield g sigma Lx Ly Nx Ny = Inr P" for P
  proof -
    note c = constructed_plate[OF built]
    have pf: "preFactor P = ?q / (4 * pi * eps0 g)"
      using c(1,2) by (simp add: c(6) q spec_k_def)
    have lx: "length (concat (xCell P)) = nat Nx * nat Ny"
      by (simp add: c(4) length_concat_replicate mult.commute)
    have ly: "length (concat (yCell P)) = nat Nx * nat Ny"
      by (simp add: c(5) length_concat comp_def sum_list_triv mult.commute)
    have "(\<Sum>c\<leftarrow>concat (xCell P). ?q) = real (length (concat (xCell P))) * ?q"
      by (simp add: sum_list_triv)
    with lx tot have "(\<Sum>c\<leftarrow>concat (xCell P). ?q) = sigma * Lx * Ly"
      by simp
    with pf lx ly show ?thesis by blast
  qed
  with q tot show ?thesis by blast
qed

theorem cell_charges_sum_to_total_witness:
  "(1 \<le> (1::int) \<and> 1 \<le> (1::int))
   \<and> real (nat 1 * nat 1) * cellCharge 1 (2 / of_int 1) (2 / of_int 1) = 1 * 2 * 2
   \<and> constructPlateEfield \<lparr>eps0 = 1\<rparr> 1 2 2 1 1
        = Inr \<lparr>xCell = [[0]], yCell = [[0]], preFactor = 1 / pi\<rparr>
   \<and> (\<Sum>c\<leftarrow>concat (xCell \<lparr>xCell = [[0]], yCell = [[0]], preFactor = 1 / pi\<rparr>).
         cellCharge 1 (2 / of_int 1) (2 / of_int 1)) = 1 * 2 * 2"
proof -
  have h: "1 \<le> (1::int)" by simp
  note t = cell_charges_sum_to_total [OF h h, of 1 2 2 "\<lparr>eps0 = 1\<rparr>"]
  from t have tot: "real (nat 1 * nat 1) * cellCharge 1 (2 / of_int 1) (2 / of_int 1) = 1 * 2 * 2"
    by blast
  from t construct_unit_plate
  have "(\<Sum>c\<leftarrow>concat (xCell \<lparr>xCell = [[0]], yCell = [[0]], preFactor = 1 / pi\<rparr>).
         cellCharge 1 (2 / of_int 1) (2 / of_int 1)) = 1 * 2 * 2"
    by blast
  with h tot construct_unit_plate show ?thesis by blast
qed

text \<open>
  C8 at the empty array. The source vectorizes \<open>Efield\<close> so that the evaluator accepts
  NumPy array inputs, and for an array of \<open>N\<close> values of \<open>z\<close> three arrays of length \<open>N\<close>
  are expected. For \<open>N = 0\<close> the code does not return three empty arrays: the vectorized
  evaluator, built without \<open>otypes\<close>, raises \<open>ValueError\<close>.
\<close>

theorem vectorized_empty_raises:
  "constructPlateEfield \<lparr>eps0 = 1\<rparr> 1 2 2 1 1
     = Inr \<lparr>xCell = [[0]], yCell = [[0]], preFactor = 1 / pi\<rparr>
   \<and> Efield_vectorized \<lparr>xCell = [[0]], yCell = [[0]], preFactor = 1 / pi\<rparr> 0 0 []
     = Inl ValueError"
  by (simp add: construct_unit_plate Efield_vectorized_def)

text \<open>
  C10. Reassigning the global \<open>eps0\<close> after construction does not change what the
  evaluator returns at any query point; the constant enters through the prefactor,
  computed from the value \<open>eps0\<close> had at construction.
\<close>

theorem evaluator_ignores_later_eps0:
  assumes "constructPlateEfield g sigma Lx Ly Nx Ny = Inr P"
  shows "call_Efield (g\<lparr>eps0 := e\<rparr>) P x y z = call_Efield g P x y z
    \<and> preFactor P = spec_k sigma Lx Ly (nat Nx) (nat Ny) (eps0 g)"
  using constructed_plate(6)[OF assms] by (simp add: call_Efield_def)

theorem evaluator_ignores_later_eps0_witness:
  "constructPlateEfield \<lparr>eps0 = 1\<rparr> 1 2 2 1 1
     = Inr \<lparr>xCell = [[0]], yCell = [[0]], preFactor = 1 / pi\<rparr>
   \<and> call_Efield (\<lparr>eps0 = 1\<rparr>\<lparr>eps0 := 42\<rparr>) \<lparr>xCell = [[0]], yCell = [[0]], preFactor = 1 / pi\<rparr> 0 0 1
     = call_Efield \<lparr>eps0 = 1\<rparr> \<lparr>xCell = [[0]], yCell = [[0]], preFactor = 1 / pi\<rparr> 0 0 1"
  using evaluator_ignores_later_eps0 [OF construct_unit_plate, of 42 0 0 1] construct_unit_plate
  by blast

section \<open>Symmetries of the grid sum\<close>

lemma npfloat_neg_sum: "- (\<Sum>i\<in>A. f i) = (\<Sum>i\<in>A. - (f i :: npfloat))"
  by (induction A rule: infinite_finite_induct) (simp_all add: npfloat_neg_add zero_npfloat_def)

lemma npfloat_sum_NaN:
  assumes "finite A" "a \<in> A" "f a = NaN"
  shows "(\<Sum>i\<in>A. f i) = NaN"
proof -
  have "(\<Sum>i\<in>A. f i) = f a + (\<Sum>i\<in>A - {a}. f i)"
    using assms(1,2) by (rule sum.remove)
  then show ?thesis
    by (simp add: assms(3))
qed

lemma cell_center_reflect:
  assumes "i < N"
  shows "cell_center L N (N - Suc i) = - cell_center L N i"
  using assms by (simp add: cell_center_def field_simps of_nat_diff)

lemma invR3_reflect_xy: "invR3 (- x) (- y) z (- xc) (- yc) = invR3 x y z xc yc"
proof -
  have "(- x - - xc)\<^sup>2 = (x - xc)\<^sup>2" "(- y - - yc)\<^sup>2 = (y - yc)\<^sup>2"
    by (simp_all add: power2_eq_square algebra_simps)
  then show ?thesis by (simp add: invR3_def)
qed

lemma invR3_reflect_z: "invR3 x y (- z) xc yc = invR3 x y z xc yc"
  by (simp add: invR3_def)

lemma grid_sum_reflect:
  fixes t :: "real \<Rightarrow> real \<Rightarrow> npfloat"
  shows "(\<Sum>i<n. \<Sum>j<m. t (cell_center Lx n i) (cell_center Ly m j))
       = (\<Sum>i<n. \<Sum>j<m. t (- cell_center Lx n i) (- cell_center Ly m j))"
proof -
  have "(\<Sum>i<n. \<Sum>j<m. t (- cell_center Lx n i) (- cell_center Ly m j))
      = (\<Sum>i<n. \<Sum>j<m. t (cell_center Lx n (n - Suc i)) (cell_center Ly m (m - Suc j)))"
    by (intro sum.cong refl) (simp add: cell_center_reflect)
  also have "\<dots> = (\<Sum>i<n. \<Sum>j<m. t (cell_center Lx n (n - Suc i)) (cell_center Ly m j))"
  proof (rule sum.cong[OF refl])
    fix i
    show "(\<Sum>j<m. t (cell_center Lx n (n - Suc i)) (cell_center Ly m (m - Suc j)))
        = (\<Sum>j<m. t (cell_center Lx n (n - Suc i)) (cell_center Ly m j))"
      using sum.nat_diff_reindex[of "\<lambda>j. t (cell_center Lx n (n - Suc i)) (cell_center Ly m j)" m]
      by simp
  qed
  also have "\<dots> = (\<Sum>i<n. \<Sum>j<m. t (cell_center Lx n i) (cell_center Ly m j))"
    using sum.nat_diff_reindex[of "\<lambda>i. \<Sum>j<m. t (cell_center Lx n i) (cell_center Ly m j)" n]
    by simp
  finally show ?thesis by simp
qed

lemma npfloat_neg_sum2:
  "(\<Sum>i<n. \<Sum>j<m. - (f i j :: npfloat)) = - (\<Sum>i<n. \<Sum>j<m. f i j)"
  by (simp add: npfloat_neg_sum)

lemma Fin_neg_scale: "Fin (k * (- a - - c)) * r = - (Fin (k * (a - c)) * r)"
proof -
  have "k * (- a - - c) = - (k * (a - c))"
    by (simp add: algebra_simps)
  then show ?thesis
    by (simp only: npfloat_mult_neg_left)
qed

lemma plate_point_symmetry:
  assumes built: "constructPlateEfield g sigma Lx Ly Nx Ny = Inr P"
  shows "Efield P (- x) (- y) z =
    (- fst (Efield P x y z), - fst (snd (Efield P x y z)), snd (snd (Efield P x y z)))"
proof -
  define k where "k = spec_k sigma Lx Ly (nat Nx) (nat Ny) (eps0 g)"
  define n where "n = nat Nx"
  define m where "m = nat Ny"
  note E = Efield_constructed[OF built, folded k_def n_def m_def]
  have ex: "(\<Sum>i<n. \<Sum>j<m. Fin (k * (- x - cell_center Lx n i))
                * invR3 (- x) (- y) z (cell_center Lx n i) (cell_center Ly m j))
      = - (\<Sum>i<n. \<Sum>j<m. Fin (k * (x - cell_center Lx n i))
                * invR3 x y z (cell_center Lx n i) (cell_center Ly m j))"
    unfolding grid_sum_reflect[where t = "\<lambda>xc yc. Fin (k * (- x - xc)) * invR3 (- x) (- y) z xc yc"]
    by (simp only: Fin_neg_scale invR3_reflect_xy npfloat_neg_sum2)
  have ey: "(\<Sum>i<n. \<Sum>j<m. Fin (k * (- y - cell_center Ly m j))
                * invR3 (- x) (- y) z (cell_center Lx n i) (cell_center Ly m j))
      = - (\<Sum>i<n. \<Sum>j<m. Fin (k * (y - cell_center Ly m j))
                * invR3 x y z (cell_center Lx n i) (cell_center Ly m j))"
    unfolding grid_sum_reflect[where t = "\<lambda>xc yc. Fin (k * (- y - yc)) * invR3 (- x) (- y) z xc yc"]
    by (simp only: Fin_neg_scale invR3_reflect_xy npfloat_neg_sum2)
  have ez: "(\<Sum>i<n. \<Sum>j<m. Fin (k * z)
                * invR3 (- x) (- y) z (cell_center Lx n i) (cell_center Ly m j))
      = (\<Sum>i<n. \<Sum>j<m. Fin (k * z)
                * invR3 x y z (cell_center Lx n i) (cell_center Ly m j))"
    unfolding grid_sum_reflect[where t = "\<lambda>xc yc. Fin (k * z) * invR3 (- x) (- y) z xc yc"]
    by (simp only: invR3_reflect_xy)
  show ?thesis
    unfolding E ex ey ez by simp
qed

lemma Efield_unit_plate:
  "Efield \<lparr>xCell = [[0]], yCell = [[0]], preFactor = 1 / pi\<rparr> x y 1
     = (Fin (x / pi) * Fin ((x\<^sup>2 + y\<^sup>2 + 1) powr (- 3 / 2)),
        Fin (y / pi) * Fin ((x\<^sup>2 + y\<^sup>2 + 1) powr (- 3 / 2)),
        Fin (1 / pi) * Fin ((x\<^sup>2 + y\<^sup>2 + 1) powr (- 3 / 2)))"
proof -
  have "x\<^sup>2 + y\<^sup>2 + 1 > 0"
    by (smt (verit) zero_le_power2)
  then show ?thesis
    by (simp add: Efield_def dEx_def dEy_def dEz_def Rinv3_def np_sum_def np_power_def)
qed

text \<open>
  C7. For every square plate (both sides of length \<open>L\<close>) that is built and every query
  point: if the evaluator gives \<open>(Ex, Ey, Ez)\<close> at \<open>(x, y, z)\<close>, it gives \<open>(-Ex, -Ey, Ez)\<close> at
  \<open>(-x, -y, z)\<close>. (Lemma \<open>plate_point_symmetry\<close> is the same for any rectangle.)
\<close>

theorem square_plate_point_symmetry:
  assumes "constructPlateEfield g sigma L L Nx Ny = Inr P"
    and "Efield P x y z = (ex, ey, ez)"
  shows "Efield P (- x) (- y) z = (- ex, - ey, ez)"
  using plate_point_symmetry[OF assms(1), of x y z] assms(2) by simp

theorem square_plate_point_symmetry_witness:
  "constructPlateEfield \<lparr>eps0 = 1\<rparr> 1 2 2 1 1
     = Inr \<lparr>xCell = [[0]], yCell = [[0]], preFactor = 1 / pi\<rparr>
   \<and> Efield \<lparr>xCell = [[0]], yCell = [[0]], preFactor = 1 / pi\<rparr> 1 2 1
     = (Fin (1 / pi * 6 powr (- 3 / 2)), Fin (2 / pi * 6 powr (- 3 / 2)),
        Fin (1 / pi * 6 powr (- 3 / 2)))
   \<and> Efield \<lparr>xCell = [[0]], yCell = [[0]], preFactor = 1 / pi\<rparr> (- 1) (- 2) 1
     = (- Fin (1 / pi * 6 powr (- 3 / 2)), - Fin (2 / pi * 6 powr (- 3 / 2)),
        Fin (1 / pi * 6 powr (- 3 / 2)))"
proof -
  have e: "Efield \<lparr>xCell = [[0]], yCell = [[0]], preFactor = 1 / pi\<rparr> 1 2 1
     = (Fin (1 / pi * 6 powr (- 3 / 2)), Fin (2 / pi * 6 powr (- 3 / 2)),
        Fin (1 / pi * 6 powr (- 3 / 2)))"
    by (simp add: Efield_unit_plate)
  from square_plate_point_symmetry [OF construct_unit_plate e] construct_unit_plate e
  show ?thesis by blast
qed

section \<open>A query point on a cell centre\<close>

lemma nan_in_grid_sum:
  fixes n m :: nat
  assumes "i < n" "j < m" "f i j = NaN"
  shows "(\<Sum>i<n. \<Sum>j<m. f i j) = NaN"
proof -
  have "(\<Sum>j<m. f i j) = NaN"
    using assms(2,3) npfloat_sum_NaN[where A = "{..<m}" and a = j and f = "f i"] by simp
  then show ?thesis
    using assms(1) npfloat_sum_NaN[where A = "{..<n}" and a = i and f = "\<lambda>i. \<Sum>j<m. f i j"]
    by simp
qed

text \<open>
  C6. For every plate that is built and every cell \<open>(j, i)\<close> of its grid, evaluating at
  that cell's centre (with \<open>z = 0\<close>, so that \<open>r2 = 0\<close> for the cell) raises nothing and
  clamps nothing: all three components are the special value not-a-number (the cell
  contributes \<open>0 * inf\<close>, and the sums keep it), and the vectorized evaluator returns
  them as ordinary array entries.
\<close>

theorem query_on_cell_center_is_nan:
  assumes built: "constructPlateEfield g sigma Lx Ly Nx Ny = Inr P"
    and j: "j < length (xCell P)" and i: "i < length (xCell P ! j)"
  shows "Efield P (xCell P ! j ! i) (yCell P ! j ! i) 0 = (NaN, NaN, NaN)
    \<and> Efield_vectorized P (xCell P ! j ! i) (yCell P ! j ! i) [0] = Inr ([NaN], [NaN], [NaN])"
proof -
  note c = constructed_plate[OF built]
  have jm: "j < nat Ny" using j by (simp add: c(4))
  have "i < nat Nx" using i jm by (simp add: c(4))
  note im = this
  have xc: "xCell P ! j ! i = cell_center Lx (nat Nx) i"
    and yc: "yCell P ! j ! i = cell_center Ly (nat Ny) j"
    using im jm by (simp_all add: c(4,5))
  have inf: "invR3 a b 0 a b = PInf" for a b
    by (simp add: invR3_def np_power_def)
  have E: "Efield P (xCell P ! j ! i) (yCell P ! j ! i) 0 = (NaN, NaN, NaN)"
    unfolding Efield_constructed[OF built] xc yc
    by (simp add: nan_in_grid_sum[OF im jm] inf)
  then show ?thesis
    by (simp add: Efield_vectorized_def)
qed

theorem query_on_cell_center_is_nan_witness:
  "constructPlateEfield \<lparr>eps0 = 1\<rparr> 1 2 2 1 1
     = Inr \<lparr>xCell = [[0]], yCell = [[0]], preFactor = 1 / pi\<rparr>
   \<and> (0::nat) < length (xCell \<lparr>xCell = [[0]], yCell = [[0]], preFactor = 1 / pi\<rparr>)
   \<and> (0::nat) < length (xCell \<lparr>xCell = [[0]], yCell = [[0]], preFactor = 1 / pi\<rparr> ! 0)
   \<and> Efield \<lparr>xCell = [[0]], yCell = [[0]], preFactor = 1 / pi\<rparr> 0 0 0 = (NaN, NaN, NaN)"
proof -
  have j: "(0::nat) < length (xCell \<lparr>xCell = [[0]], yCell = [[0]], preFactor = 1 / pi\<rparr>)"
    and i: "(0::nat) < length (xCell \<lparr>xCell = [[0]], yCell = [[0]], preFactor = 1 / pi\<rparr> ! 0)"
    by simp_all
  from query_on_cell_center_is_nan [OF construct_unit_plate j i]
  have "Efield \<lparr>xCell = [[0]], yCell = [[0]], preFactor = 1 / pi\<rparr> 0 0 0 = (NaN, NaN, NaN)"
    by simp
  with construct_unit_plate i j show ?thesis by blast
qed

section \<open>Far from the plate\<close>

lemma sum_Fin: "(\<Sum>i\<in>A. Fin (f i)) = Fin (\<Sum>i\<in>A. f i)"
  by (induction A rule: infinite_finite_induct) (simp_all add: zero_npfloat_def)

lemma sum_Fin2: "(\<Sum>i<n. \<Sum>j<m. Fin (f i j)) = Fin (\<Sum>i<n. \<Sum>j<m. f i j)"
  by (simp add: sum_Fin)

lemma invR3_off_plane:
  assumes "z \<noteq> 0"
  shows "invR3 0 0 z xc yc = Fin ((xc\<^sup>2 + yc\<^sup>2 + z\<^sup>2) powr (- 3 / 2))"
proof -
  have "0 < z\<^sup>2" using assms by simp
  moreover have "0 \<le> xc\<^sup>2" "0 \<le> yc\<^sup>2" by simp_all
  ultimately have "0 < xc\<^sup>2 + yc\<^sup>2 + z\<^sup>2" by linarith
  then show ?thesis by (simp add: invR3_def np_power_def)
qed

lemma cell_center_within_plate:
  assumes "i < n"
  shows "(cell_center L n i)\<^sup>2 \<le> L\<^sup>2 / 4"
proof -
  define q where "q = (2 * real i + 1 - real n) / (2 * real n)"
  have n: "0 < real n" using assms by simp
  have c: "cell_center L n i = L * q"
    using n by (simp add: cell_center_def q_def field_simps)
  have "\<bar>2 * real i + 1 - real n\<bar> \<le> real n"
    using assms by (simp add: abs_le_iff)
  then have "\<bar>q\<bar> \<le> 1 / 2"
    using n by (simp add: q_def field_simps)
  then have "q\<^sup>2 \<le> (1 / 2)\<^sup>2"
    using abs_le_square_iff[of q "1 / 2"] by simp
  then have "L\<^sup>2 * q\<^sup>2 \<le> L\<^sup>2 * (1 / 2)\<^sup>2"
    by (intro mult_left_mono) simp_all
  then show ?thesis
    by (simp add: c power_mult_distrib power2_eq_square algebra_simps)
qed

lemma sq_powr_inv_cube:
  fixes z :: real
  assumes "0 < z"
  shows "(z\<^sup>2) powr (- 3 / 2) = 1 / z ^ 3"
proof -
  have "(z\<^sup>2) powr (- 3 / 2) = (z powr 2) powr (- 3 / 2)"
    using assms by simp
  also have "\<dots> = z powr (- 3)"
    by (simp add: powr_powr)
  also have "\<dots> = 1 / z ^ 3"
    using assms by (simp add: powr_minus_divide)
  finally show ?thesis .
qed

lemma shrink_factor:
  fixes t :: real
  assumes "0 \<le> t"
  shows "1 - 2 * t \<le> (1 + t) powr (- 3 / 2)"
proof -
  have one: "1 \<le> 1 + t" using assms by simp
  have "(1 - 2 * t) * (1 + t)\<^sup>2 = 1 - (3 * t\<^sup>2 + 2 * t ^ 3)"
    by (simp add: power2_eq_square power3_eq_cube algebra_simps)
  moreover have "0 \<le> 3 * t\<^sup>2 + 2 * t ^ 3"
    using assms by simp
  ultimately have "(1 - 2 * t) * (1 + t)\<^sup>2 \<le> 1" by linarith
  moreover have "0 < (1 + t)\<^sup>2" using one by simp
  ultimately have "1 - 2 * t \<le> 1 / (1 + t)\<^sup>2"
    by (simp add: field_simps)
  also have "\<dots> = (1 + t) powr (- 2)"
    using one by (simp add: powr_minus_divide)
  also have "\<dots> \<le> (1 + t) powr (- 3 / 2)"
    using one by (intro powr_mono) simp_all
  finally show ?thesis .
qed

lemma weight_bounds:
  fixes z a c :: real
  assumes z: "0 < z" and a: "0 \<le> a" "a \<le> c"
  shows "(a + z\<^sup>2) powr (- 3 / 2) \<le> 1 / z ^ 3"
    and "(1 - 2 * (c / z\<^sup>2)) * (1 / z ^ 3) \<le> (a + z\<^sup>2) powr (- 3 / 2)"
proof -
  have z2: "0 < z\<^sup>2" using z by simp
  have "(a + z\<^sup>2) powr (- 3 / 2) \<le> (z\<^sup>2) powr (- 3 / 2)"
  proof (rule powr_mono2')
    show "z\<^sup>2 \<le> a + z\<^sup>2" using a(1) by linarith
  qed (use z2 in simp_all)
  then show "(a + z\<^sup>2) powr (- 3 / 2) \<le> 1 / z ^ 3"
    by (simp only: sq_powr_inv_cube[OF z])
  have t: "0 \<le> c / z\<^sup>2" using a z2 by simp
  have "c + z\<^sup>2 = z\<^sup>2 * (1 + c / z\<^sup>2)"
    using z2 by (simp add: field_simps)
  then have "(c + z\<^sup>2) powr (- 3 / 2) = (z\<^sup>2) powr (- 3 / 2) * (1 + c / z\<^sup>2) powr (- 3 / 2)"
    by (simp only: powr_mult)
  also have "\<dots> = (1 + c / z\<^sup>2) powr (- 3 / 2) * (1 / z ^ 3)"
    by (simp only: sq_powr_inv_cube[OF z] mult.commute)
  finally have eq: "(c + z\<^sup>2) powr (- 3 / 2) = (1 + c / z\<^sup>2) powr (- 3 / 2) * (1 / z ^ 3)" .
  have "(1 - 2 * (c / z\<^sup>2)) * (1 / z ^ 3) \<le> (1 + c / z\<^sup>2) powr (- 3 / 2) * (1 / z ^ 3)"
    using shrink_factor[OF t] z by (intro mult_right_mono) simp_all
  also have "\<dots> = (c + z\<^sup>2) powr (- 3 / 2)"
    by (simp only: eq)
  also have "\<dots> \<le> (a + z\<^sup>2) powr (- 3 / 2)"
  proof (rule powr_mono2')
    show "0 < a + z\<^sup>2" using z2 a(1) by linarith
  qed (use a in simp_all)
  finally show "(1 - 2 * (c / z\<^sup>2)) * (1 / z ^ 3) \<le> (a + z\<^sup>2) powr (- 3 / 2)" .
qed

lemma Efield_on_axis:
  assumes built: "constructPlateEfield g sigma Lx Ly Nx Ny = Inr P" and z: "z \<noteq> 0"
  shows "Efield P 0 0 z = (Fin 0, Fin 0,
    Fin (\<Sum>i<nat Nx. \<Sum>j<nat Ny. spec_k sigma Lx Ly (nat Nx) (nat Ny) (eps0 g) * z *
       ((cell_center Lx (nat Nx) i)\<^sup>2 + (cell_center Ly (nat Ny) j)\<^sup>2 + z\<^sup>2) powr (- 3 / 2)))"
proof -
  obtain a b c where E: "Efield P 0 0 z = (Fin a, Fin b, Fin c)"
    and c: "c = (\<Sum>i<nat Nx. \<Sum>j<nat Ny. spec_k sigma Lx Ly (nat Nx) (nat Ny) (eps0 g) * z *
       ((cell_center Lx (nat Nx) i)\<^sup>2 + (cell_center Ly (nat Ny) j)\<^sup>2 + z\<^sup>2) powr (- 3 / 2))"
    unfolding Efield_constructed[OF built] invR3_off_plane[OF z]
    by (simp add: sum_Fin)
  from plate_point_symmetry[OF built, of 0 0 z] E
  have "a = 0" "b = 0" by simp_all
  with E c show ?thesis by simp
qed

lemma far_field_bound:
  assumes built: "constructPlateEfield g sigma Lx Ly Nx Ny = Inr P" and z: "0 < z"
  shows "\<exists>ez. Efield P 0 0 z = (Fin 0, Fin 0, Fin ez)
    \<and> \<bar>ez - point_charge_Ez (sigma * Lx * Ly) (eps0 g) z\<bar>
        \<le> (Lx\<^sup>2 + Ly\<^sup>2) / (2 * z\<^sup>2) * \<bar>point_charge_Ez (sigma * Lx * Ly) (eps0 g) z\<bar>"
proof -
  define n where "n = nat Nx"
  define m where "m = nat Ny"
  define k where "k = spec_k sigma Lx Ly n m (eps0 g)"
  define w where "w i j = ((cell_center Lx n i)\<^sup>2 + (cell_center Ly m j)\<^sup>2 + z\<^sup>2) powr (- 3 / 2)" for i j
  define ez where "ez = (\<Sum>i<n. \<Sum>j<m. k * z * w i j)"
  define pt where "pt = point_charge_Ez (sigma * Lx * Ly) (eps0 g) z"
  define t where "t = ((Lx\<^sup>2 + Ly\<^sup>2) / 4) / z\<^sup>2"
  note c = constructed_plate[OF built]
  have n: "0 < real n" and m: "0 < real m"
    using c(1,2) by (simp_all add: n_def m_def)
  have E: "Efield P 0 0 z = (Fin 0, Fin 0, Fin ez)"
    using Efield_on_axis[OF built, of z] z
    by (simp add: ez_def w_def k_def n_def m_def)
  have pt: "pt = real n * (real m * (k * z * (1 / z ^ 3)))"
    using n m z by (simp add: pt_def point_charge_Ez_def k_def spec_k_def)
  have diff: "ez - pt = (\<Sum>i<n. \<Sum>j<m. k * z * (w i j - 1 / z ^ 3))"
    by (simp add: ez_def pt sum_subtractf right_diff_distrib)
  have each: "\<bar>k * z * (w i j - 1 / z ^ 3)\<bar> \<le> \<bar>k * z\<bar> * (2 * t * (1 / z ^ 3))"
    if "i < n" "j < m" for i j
  proof -
    have a: "0 \<le> (cell_center Lx n i)\<^sup>2 + (cell_center Ly m j)\<^sup>2"
      by simp
    have b: "(cell_center Lx n i)\<^sup>2 + (cell_center Ly m j)\<^sup>2 \<le> (Lx\<^sup>2 + Ly\<^sup>2) / 4"
      using cell_center_within_plate[OF that(1), of Lx] cell_center_within_plate[OF that(2), of Ly]
      by simp
    from weight_bounds[OF z a b]
    have "w i j \<le> 1 / z ^ 3" "(1 - 2 * t) * (1 / z ^ 3) \<le> w i j"
      by (simp_all add: w_def t_def)
    moreover have "(1 - 2 * t) * (1 / z ^ 3) = 1 / z ^ 3 - 2 * t * (1 / z ^ 3)"
      by (simp only: left_diff_distrib mult_1)
    ultimately have "\<bar>w i j - 1 / z ^ 3\<bar> \<le> 2 * t * (1 / z ^ 3)"
      by linarith
    then have "\<bar>k * z\<bar> * \<bar>w i j - 1 / z ^ 3\<bar> \<le> \<bar>k * z\<bar> * (2 * t * (1 / z ^ 3))"
      by (intro mult_left_mono) simp_all
    then show ?thesis
      by (simp only: abs_mult)
  qed
  have "\<bar>ez - pt\<bar> \<le> (\<Sum>i<n. \<bar>\<Sum>j<m. k * z * (w i j - 1 / z ^ 3)\<bar>)"
    unfolding diff by (rule sum_abs)
  also have "\<dots> \<le> (\<Sum>i<n. \<Sum>j<m. \<bar>k * z * (w i j - 1 / z ^ 3)\<bar>)"
    by (intro sum_mono sum_abs)
  also have "\<dots> \<le> (\<Sum>i<n. \<Sum>j<m. \<bar>k * z\<bar> * (2 * t * (1 / z ^ 3)))"
    by (intro sum_mono each) simp_all
  also have "\<dots> = 2 * t * (real n * (real m * (\<bar>k * z\<bar> * (1 / z ^ 3))))"
    by simp
  also have "real n * (real m * (\<bar>k * z\<bar> * (1 / z ^ 3))) = \<bar>pt\<bar>"
    using n m z by (simp add: pt abs_mult)
  finally have "\<bar>ez - pt\<bar> \<le> 2 * t * \<bar>pt\<bar>" .
  moreover have "2 * t = (Lx\<^sup>2 + Ly\<^sup>2) / (2 * z\<^sup>2)"
    using z by (simp add: t_def field_simps)
  ultimately show ?thesis
    using E unfolding pt_def by auto
qed

lemma construct_succeeds:
  assumes "1 \<le> Nx" "1 \<le> Ny" "eps0 g \<noteq> 0"
  shows "\<exists>P. constructPlateEfield g sigma Lx Ly Nx Ny = Inr P"
  using assms by (simp only: construct_cases) simp

lemma far_field_limit:
  assumes built: "constructPlateEfield g sigma Lx Ly Nx Ny = Inr P" and tol: "0 < tol"
  shows "\<exists>Z>0. \<forall>z\<ge>Z. \<exists>ez. Efield P 0 0 z = (Fin 0, Fin 0, Fin ez)
    \<and> \<bar>ez - point_charge_Ez (sigma * Lx * Ly) (eps0 g) z\<bar>
        \<le> tol * \<bar>point_charge_Ez (sigma * Lx * Ly) (eps0 g) z\<bar>"
proof -
  define S where "S = Lx\<^sup>2 + Ly\<^sup>2"
  define Z where "Z = max 1 (S / (2 * tol))"
  have Z: "0 < Z" by (simp add: Z_def)
  have "\<exists>ez. Efield P 0 0 z = (Fin 0, Fin 0, Fin ez)
    \<and> \<bar>ez - point_charge_Ez (sigma * Lx * Ly) (eps0 g) z\<bar>
        \<le> tol * \<bar>point_charge_Ez (sigma * Lx * Ly) (eps0 g) z\<bar>" if zZ: "Z \<le> z" for z
  proof -
    have z1: "1 \<le> z" and zS: "S / (2 * tol) \<le> z"
      using zZ by (simp_all add: Z_def)
    have z: "0 < z" using z1 by simp
    have "z * 1 \<le> z * z" using z1 z by (intro mult_left_mono) simp_all
    then have zz: "z \<le> z\<^sup>2" by (simp add: power2_eq_square)
    have "S \<le> 2 * tol * z"
      using zS tol by (simp add: field_simps)
    also have "\<dots> \<le> 2 * tol * z\<^sup>2"
      using zz tol by simp
    finally have r: "S / (2 * z\<^sup>2) \<le> tol"
      using z by (simp add: field_simps)
    from far_field_bound[OF built z] obtain ez where
      E: "Efield P 0 0 z = (Fin 0, Fin 0, Fin ez)"
      and b: "\<bar>ez - point_charge_Ez (sigma * Lx * Ly) (eps0 g) z\<bar>
        \<le> S / (2 * z\<^sup>2) * \<bar>point_charge_Ez (sigma * Lx * Ly) (eps0 g) z\<bar>"
      unfolding S_def by blast
    have "S / (2 * z\<^sup>2) * \<bar>point_charge_Ez (sigma * Lx * Ly) (eps0 g) z\<bar>
        \<le> tol * \<bar>point_charge_Ez (sigma * Lx * Ly) (eps0 g) z\<bar>"
      using r by (intro mult_right_mono) simp_all
    with b E show ?thesis by (intro exI[of _ ez]) linarith
  qed
  with Z show ?thesis by blast
qed

lemma far_field_example:
  assumes e: "0 < eps0 g"
  shows "\<exists>P ez. constructPlateEfield g 1 3 3 100 100 = Inr P
      \<and> Efield P 0 0 100 = (Fin 0, Fin 0, Fin ez)
      \<and> \<bar>ez - point_charge_Ez 9 (eps0 g) 100\<bar> \<le> 1 / 1000 * \<bar>point_charge_Ez 9 (eps0 g) 100\<bar>"
proof -
  from e obtain P where built: "constructPlateEfield g 1 3 3 100 100 = Inr P"
    using construct_succeeds[of 100 100 g 1 3 3] by auto
  have z: "(0::real) < 100" by simp
  from far_field_bound[OF built z] obtain ez where
    E: "Efield P 0 0 100 = (Fin 0, Fin 0, Fin ez)"
    and b: "\<bar>ez - point_charge_Ez (1 * 3 * 3) (eps0 g) 100\<bar>
        \<le> (3\<^sup>2 + 3\<^sup>2) / (2 * 100\<^sup>2) * \<bar>point_charge_Ez (1 * 3 * 3) (eps0 g) 100\<bar>"
    by blast
  have "((3::real)\<^sup>2 + 3\<^sup>2) / (2 * 100\<^sup>2) * \<bar>point_charge_Ez 9 (eps0 g) 100\<bar>
      \<le> 1 / 1000 * \<bar>point_charge_Ez 9 (eps0 g) 100\<bar>"
    by (intro mult_right_mono) simp_all
  with b have "\<bar>ez - point_charge_Ez 9 (eps0 g) 100\<bar> \<le> 1 / 1000 * \<bar>point_charge_Ez 9 (eps0 g) 100\<bar>"
    by simp
  with built E show ?thesis by blast
qed

text \<open>
  C9. For the plate with \<open>chargeDensity = 1\<close>, sides 3 and 3, 100 by 100 cells and any
  positive \<open>eps0\<close> (its physical value among them), the evaluator's output at
  \<open>(0, 0, 100)\<close> has x- and y-components zero and a z-component within relative
  tolerance \<open>1e-3\<close> of the point-charge field \<open>Q/(4*pi*eps0) * 100/100^3\<close> with \<open>Q = 9\<close>.
  More generally, for every plate that is built and every tolerance, from some distance
  on the on-axis field is within that relative tolerance of the point-charge field of
  the plate's total charge \<open>chargeDensity*Lx*Ly\<close> (lemma \<open>far_field_bound\<close>: the relative
  error is at most \<open>(Lx^2 + Ly^2)/(2*z^2)\<close>).
\<close>

theorem far_field_approaches_point_charge:
  "(0 < eps0 g \<longrightarrow>
      (\<exists>P ez. constructPlateEfield g 1 3 3 100 100 = Inr P
        \<and> Efield P 0 0 100 = (Fin 0, Fin 0, Fin ez)
        \<and> \<bar>ez - point_charge_Ez 9 (eps0 g) 100\<bar>
            \<le> 1 / 1000 * \<bar>point_charge_Ez 9 (eps0 g) 100\<bar>))
   \<and> (constructPlateEfield g sigma Lx Ly Nx Ny = Inr Q \<and> 0 < tol \<longrightarrow>
      (\<exists>Z>0. \<forall>z\<ge>Z. \<exists>ez. Efield Q 0 0 z = (Fin 0, Fin 0, Fin ez)
        \<and> \<bar>ez - point_charge_Ez (sigma * Lx * Ly) (eps0 g) z\<bar>
            \<le> tol * \<bar>point_charge_Ez (sigma * Lx * Ly) (eps0 g) z\<bar>))"
  using far_field_example[of g] far_field_limit[of g sigma Lx Ly Nx Ny Q tol] by blast

theorem far_field_approaches_point_charge_witness:
  "0 < eps0 \<lparr>eps0 = 88541878128 / 10 ^ 22\<rparr>
   \<and> (\<exists>P ez. constructPlateEfield \<lparr>eps0 = 88541878128 / 10 ^ 22\<rparr> 1 3 3 100 100 = Inr P
        \<and> Efield P 0 0 100 = (Fin 0, Fin 0, Fin ez)
        \<and> \<bar>ez - point_charge_Ez 9 (eps0 \<lparr>eps0 = 88541878128 / 10 ^ 22\<rparr>) 100\<bar>
            \<le> 1 / 1000 * \<bar>point_charge_Ez 9 (eps0 \<lparr>eps0 = 88541878128 / 10 ^ 22\<rparr>) 100\<bar>)
   \<and> constructPlateEfield \<lparr>eps0 = 88541878128 / 10 ^ 22\<rparr> 1 3 3 100 100
        = Inr \<lparr>xCell = replicate 100 (map (cell_center 3 100) [0..<100]),
               yCell = map (replicate 100) (map (cell_center 3 100) [0..<100]),
               preFactor = spec_k 1 3 3 100 100 (88541878128 / 10 ^ 22)\<rparr>
   \<and> (0::real) < 1 / 1000
   \<and> (\<exists>Z>0. \<forall>z\<ge>Z. \<exists>ez.
          Efield \<lparr>xCell = replicate 100 (map (cell_center 3 100) [0..<100]),
               yCell = map (replicate 100) (map (cell_center 3 100) [0..<100]),
               preFactor = spec_k 1 3 3 100 100 (88541878128 / 10 ^ 22)\<rparr> 0 0 z
            = (Fin 0, Fin 0, Fin ez)
        \<and> \<bar>ez - point_charge_Ez (1 * 3 * 3) (eps0 \<lparr>eps0 = 88541878128 / 10 ^ 22\<rparr>) z\<bar>
            \<le> 1 / 1000 * \<bar>point_charge_Ez (1 * 3 * 3) (eps0 \<lparr>eps0 = 88541878128 / 10 ^ 22\<rparr>) z\<bar>)"
proof -
  have e: "0 < eps0 \<lparr>eps0 = 88541878128 / 10 ^ 22\<rparr>"
    by simp
  have built: "constructPlateEfield \<lparr>eps0 = 88541878128 / 10 ^ 22\<rparr> 1 3 3 100 100
        = Inr \<lparr>xCell = replicate 100 (map (cell_center 3 100) [0..<100]),
               yCell = map (replicate 100) (map (cell_center 3 100) [0..<100]),
               preFactor = spec_k 1 3 3 100 100 (88541878128 / 10 ^ 22)\<rparr>"
    by (simp only: construct_cases) (simp del: upt_rec_numeral)
  have tol: "(0::real) < 1 / 1000"
    by simp
  note t = far_field_approaches_point_charge
    [of "\<lparr>eps0 = 88541878128 / 10 ^ 22\<rparr>" 1 3 3 100 100
      "\<lparr>xCell = replicate 100 (map (cell_center 3 100) [0..<100]),
               yCell = map (replicate 100) (map (cell_center 3 100) [0..<100]),
               preFactor = spec_k 1 3 3 100 100 (88541878128 / 10 ^ 22)\<rparr>" "1 / 1000"]
  from t e built tol show ?thesis
    by blast
qed

section \<open>Claims about two parallel plates\<close>

lemma construct_unit_capacitor:
  "constructEfieldParallel \<lparr>eps0 = 1\<rparr> 1 2 2 2 1 1
     = Inr \<lparr>Efield1 = \<lparr>xCell = [[0]], yCell = [[0]], preFactor = 1 / pi\<rparr>,
            Efield2 = \<lparr>xCell = [[0]], yCell = [[0]], preFactor = - (1 / pi)\<rparr>,
            distance = 2\<rparr>"
  by (simp add: constructEfieldParallel_def construct_cases cell_center_def spec_k_def)

lemma construct_unit_plate_neg:
  "constructPlateEfield \<lparr>eps0 = 1\<rparr> (- 1) 2 2 1 1
     = Inr \<lparr>xCell = [[0]], yCell = [[0]], preFactor = - (1 / pi)\<rparr>"
  by (simp add: construct_cases cell_center_def spec_k_def)

text \<open>
  C5. For every configuration from which \<open>constructEfieldParallel\<close> builds an evaluator,
  both single-plate constructions (density \<open>+chargeDensity\<close> and \<open>-chargeDensity\<close>, same
  sides and cell counts) succeed, and at every query point the composite output is the
  component-by-component sum of the first plate's evaluator at \<open>(x, y, z + distance/2)\<close>
  and the second plate's at \<open>(x, y, z - distance/2)\<close>.
\<close>

theorem parallel_is_sum_of_shifted_plates:
  assumes "constructEfieldParallel g sigma d Lx Ly Nx Ny = Inr C"
  shows "\<exists>P1 P2. constructPlateEfield g sigma Lx Ly Nx Ny = Inr P1
           \<and> constructPlateEfield g (- sigma) Lx Ly Nx Ny = Inr P2
           \<and> (\<forall>x y z. Efield_parallel C x y z
                 = vec_add (Efield P1 x y (z + d / 2)) (Efield P2 x y (z - d / 2)))"
  using assms
  by (auto simp: constructEfieldParallel_def Efield_parallel_def vec_add_def
      split: sum.splits prod.splits)

theorem parallel_is_sum_of_shifted_plates_witness:
  "constructEfieldParallel \<lparr>eps0 = 1\<rparr> 1 2 2 2 1 1
     = Inr \<lparr>Efield1 = \<lparr>xCell = [[0]], yCell = [[0]], preFactor = 1 / pi\<rparr>,
            Efield2 = \<lparr>xCell = [[0]], yCell = [[0]], preFactor = - (1 / pi)\<rparr>,
            distance = 2\<rparr>
   \<and> Efield_parallel \<lparr>Efield1 = \<lparr>xCell = [[0]], yCell = [[0]], preFactor = 1 / pi\<rparr>,
            Efield2 = \<lparr>xCell = [[0]], yCell = [[0]], preFactor = - (1 / pi)\<rparr>,
            distance = 2\<rparr> 0 0 0
     = vec_add (Efield \<lparr>xCell = [[0]], yCell = [[0]], preFactor = 1 / pi\<rparr> 0 0 (0 + 2 / 2))
         (Efield \<lparr>xCell = [[0]], yCell = [[0]], preFactor = - (1 / pi)\<rparr> 0 0 (0 - 2 / 2))"
proof -
  from parallel_is_sum_of_shifted_plates [OF construct_unit_capacitor]
  obtain P1 P2 where
    "constructPlateEfield \<lparr>eps0 = 1\<rparr> 1 2 2 1 1 = Inr P1"
    "constructPlateEfield \<lparr>eps0 = 1\<rparr> (- 1) 2 2 1 1 = Inr P2"
    and sum: "\<And>x y z. Efield_parallel \<lparr>Efield1 = \<lparr>xCell = [[0]], yCell = [[0]], preFactor = 1 / pi\<rparr>,
            Efield2 = \<lparr>xCell = [[0]], yCell = [[0]], preFactor = - (1 / pi)\<rparr>,
            distance = 2\<rparr> x y z = vec_add (Efield P1 x y (z + 2 / 2)) (Efield P2 x y (z - 2 / 2))"
    by blast
  then have "P1 = \<lparr>xCell = [[0]], yCell = [[0]], preFactor = 1 / pi\<rparr>"
    and "P2 = \<lparr>xCell = [[0]], yCell = [[0]], preFactor = - (1 / pi)\<rparr>"
    by (simp_all only: construct_unit_plate construct_unit_plate_neg sum.inject)
  with sum [of 0 0 0] construct_unit_capacitor show ?thesis
    by (simp only:)
qed

lemma plate_z_odd:
  assumes built: "constructPlateEfield g sigma Lx Ly Nx Ny = Inr P"
  shows "snd (snd (Efield P x y (- z))) = - snd (snd (Efield P x y z))"
proof -
  have "Fin (k * - z) * r = - (Fin (k * z) * r)" for k r
    using npfloat_mult_neg_left[of "k * z" r] by simp
  then show ?thesis
    unfolding Efield_constructed[OF built]
    by (simp only: snd_conv invR3_reflect_z npfloat_neg_sum2)
qed

lemma opposite_plate:
  assumes P1: "constructPlateEfield g sigma Lx Ly Nx Ny = Inr P1"
    and P2: "constructPlateEfield g (- sigma) Lx Ly Nx Ny = Inr P2"
  shows "Efield P2 x y z =
    (- fst (Efield P1 x y z), - fst (snd (Efield P1 x y z)), - snd (snd (Efield P1 x y z)))"
proof -
  have k: "spec_k (- sigma) Lx Ly n m e = - spec_k sigma Lx Ly n m e" for n m e
    by (simp add: spec_k_def)
  have "Fin (- k * a) * r = - (Fin (k * a) * r)" for k a r
    using npfloat_mult_neg_left[of "k * a" r] by simp
  then show ?thesis
    unfolding Efield_constructed[OF P1] Efield_constructed[OF P2] k
    by (simp only: fst_conv snd_conv npfloat_neg_sum2)
qed

text \<open>
  C3, as the code has it. For every parallel-plate evaluator that is built and every real
  \<open>z\<close>, the z-component of the composite field on the axis is an even function of \<open>z\<close>
  about the midplane: \<open>Ez(0,0,-z) = Ez(0,0,z)\<close>.
\<close>

theorem parallel_Ez_even_on_axis:
  assumes "constructEfieldParallel g sigma d Lx Ly Nx Ny = Inr C"
  shows "snd (snd (Efield_parallel C 0 0 (- z))) = snd (snd (Efield_parallel C 0 0 z))"
proof -
  from assms obtain P1 P2 where
    P1: "constructPlateEfield g sigma Lx Ly Nx Ny = Inr P1"
    and P2: "constructPlateEfield g (- sigma) Lx Ly Nx Ny = Inr P2"
    and C: "C = \<lparr>Efield1 = P1, Efield2 = P2, distance = d\<rparr>"
    by (auto simp: constructEfieldParallel_def split: sum.splits)
  define f where "f w = snd (snd (Efield P1 0 0 w))" for w
  have odd: "f (- w) = - f w" for w
    unfolding f_def by (rule plate_z_odd[OF P1])
  have opp: "snd (snd (Efield P2 0 0 w)) = - f w" for w
    unfolding f_def by (simp add: opposite_plate[OF P1 P2])
  have par: "snd (snd (Efield_parallel C 0 0 w)) = f (w + d / 2) + - f (w - d / 2)" for w
    by (simp add: C Efield_parallel_def case_prod_beta opp) (simp add: f_def)
  have "f (- z + d / 2) = - f (z - d / 2)" "f (- z - d / 2) = - f (z + d / 2)"
    using odd[of "z - d / 2"] odd[of "z + d / 2"] by (simp_all add: algebra_simps)
  then show ?thesis
    unfolding par by (simp add: npfloat_neg_neg add.commute)
qed

theorem parallel_Ez_even_on_axis_witness:
  "constructEfieldParallel \<lparr>eps0 = 1\<rparr> 1 2 2 2 1 1
     = Inr \<lparr>Efield1 = \<lparr>xCell = [[0]], yCell = [[0]], preFactor = 1 / pi\<rparr>,
            Efield2 = \<lparr>xCell = [[0]], yCell = [[0]], preFactor = - (1 / pi)\<rparr>,
            distance = 2\<rparr>
   \<and> snd (snd (Efield_parallel \<lparr>Efield1 = \<lparr>xCell = [[0]], yCell = [[0]], preFactor = 1 / pi\<rparr>,
            Efield2 = \<lparr>xCell = [[0]], yCell = [[0]], preFactor = - (1 / pi)\<rparr>,
            distance = 2\<rparr> 0 0 (- 3)))
     = snd (snd (Efield_parallel \<lparr>Efield1 = \<lparr>xCell = [[0]], yCell = [[0]], preFactor = 1 / pi\<rparr>,
            Efield2 = \<lparr>xCell = [[0]], yCell = [[0]], preFactor = - (1 / pi)\<rparr>,
            distance = 2\<rparr> 0 0 3))"
  using parallel_Ez_even_on_axis [OF construct_unit_capacitor, of 3] construct_unit_capacitor
  by blast

text \<open>
  C3 as stated fails: for unit density, plates of side 2 with one cell each, distance 2
  and \<open>eps0 = 1\<close>, the field at the midpoint is \<open>Ez(0,0,0) = 2/pi\<close>, while
  \<open>-Ez(0,0,-0) = -2/pi\<close>.
\<close>

theorem parallel_Ez_not_odd:
  "constructEfieldParallel \<lparr>eps0 = 1\<rparr> 1 2 2 2 1 1
     = Inr \<lparr>Efield1 = \<lparr>xCell = [[0]], yCell = [[0]], preFactor = 1 / pi\<rparr>,
            Efield2 = \<lparr>xCell = [[0]], yCell = [[0]], preFactor = - (1 / pi)\<rparr>,
            distance = 2\<rparr>
   \<and> snd (snd (Efield_parallel \<lparr>Efield1 = \<lparr>xCell = [[0]], yCell = [[0]], preFactor = 1 / pi\<rparr>,
            Efield2 = \<lparr>xCell = [[0]], yCell = [[0]], preFactor = - (1 / pi)\<rparr>,
            distance = 2\<rparr> 0 0 0)) = Fin (2 / pi)
   \<and> - snd (snd (Efield_parallel \<lparr>Efield1 = \<lparr>xCell = [[0]], yCell = [[0]], preFactor = 1 / pi\<rparr>,
            Efield2 = \<lparr>xCell = [[0]], yCell = [[0]], preFactor = - (1 / pi)\<rparr>,
            distance = 2\<rparr> 0 0 (- 0))) = Fin (- (2 / pi))
   \<and> Fin (2 / pi) \<noteq> Fin (- (2 / pi))"
  by (simp add: construct_unit_capacitor Efield_parallel_def Efield_def dEx_def dEy_def dEz_def
      Rinv3_def np_sum_def np_power_def zero_npfloat_def)

end
